theory Spec2Isabelle
  imports Complex_Main "HOL-Library.AList"
begin

section \<open>Python containers and conversions\<close>

text \<open>
  A Python \<open>dict\<close> keeps its keys in insertion order, so it is an association list with
  distinct keys: \<open>d[k] = v\<close> is \<open>AList.update k v d\<close> (the value is replaced in place, a new
  key goes to the end), \<open>k in d\<close> is \<open>map_of d k \<noteq> None\<close> and \<open>d.get(k, dflt)\<close> is
  \<open>dict_get\<close>. A \<open>defaultdict\<close> is read through \<open>dict_get\<close> with its factory's value and
  written back with \<open>AList.update\<close>, which creates the key on first access as Python does
  (every access in the source is followed by a write).

  A Python \<open>set\<close> of ids is a HOL set; \<open>len\<close> is \<open>card\<close>. Python leaves the iteration
  order of a set unspecified: \<open>list(s)\<close> is modelled by \<open>sorted_list_of_set\<close>, and iterating
  over a set of ids collected from lists by \<open>remdups\<close> of those lists.
\<close>

type_synonym ('k, 'v) dict = "('k \<times> 'v) list"

definition dict_get :: "('k, 'v) dict \<Rightarrow> 'k \<Rightarrow> 'v \<Rightarrow> 'v" where
  "dict_get d k dflt = (case map_of d k of None \<Rightarrow> dflt | Some v \<Rightarrow> v)"

definition digit_char :: "int \<Rightarrow> char" where
  "digit_char d = char_of (48 + d)"

function str_pos :: "int \<Rightarrow> string" where
  "str_pos n = (if n < 10 then [digit_char n]
                else str_pos (n div 10) @ [digit_char (n mod 10)])"
  by pat_completeness auto
termination
  by (relation "measure nat") auto

declare str_pos.simps [simp del]

definition str_int :: "int \<Rightarrow> string" where
  \<comment> \<open>\<open>str(i)\<close> and the \<open>{i}\<close> of an f-string, for an integer\<close>
  "str_int i = (if i < 0 then CHR ''-'' # str_pos (- i) else str_pos i)"

section \<open>Input records\<close>

text \<open>
  One row of the match table. A missing id is pandas' NaN, here \<open>None\<close>; so is a missing
  surface. The loader sets \<open>year\<close> on every row.
\<close>

record match_rec =
  winner_id :: "int option"
  loser_id :: "int option"
  tourney_name :: string
  year :: int
  surface :: "string option"
  round_name :: string
  score :: string

text \<open>
  The value of \<open>players_data[player_id]\<close>: a dict in which every key may be absent
  (\<open>None\<close>). Heights are whole numbers from the JSON file and floats from the CSV file.
\<close>

record pdata =
  name :: "string option"
  country :: "string option"
  hand :: "string option"
  height :: "rat option"
  titles :: "int option"
  birth_date :: "string option"
  birth_year :: "int option"

text \<open>
  One Grand Slam final: \<open>final.get('tournament', '')\<close>,
  \<open>final.get('winner', {}).get('name', '')\<close> and the same for the loser.
\<close>

record final_rec =
  f_tournament :: string
  f_winner_name :: string
  f_loser_name :: string

section \<open>Derived records\<close>

record match_info =
  opponent_id :: int
  tournament :: string
  md_year :: "int option"  \<comment> \<open>\<open>None\<close> is the \<open>''\<close> that \<open>year or ''\<close> gives for 0\<close>
  md_surface :: string
  md_round :: string
  md_score :: string
  result :: string

datatype kind = Direct_opponents | Same_country | Same_hand | Similar_height
  | Same_birth_year | Same_tournament

record connections =
  direct_opponents :: "int list"
  same_country :: "int list"
  same_hand :: "int list"
  similar_height :: "int list"
  same_birth_year :: "int list"
  same_tournament :: "int list"
  total_connections :: nat

record player_info =
  info_id :: int
  info_name :: string
  info_country :: string
  info_hand :: string
  info_height :: "rat option"
  info_birth_year :: "int option"
  info_titles :: int
  info_connections :: nat

record metadata =
  total_players :: nat
  total_matches :: nat
  data_range :: string
  generated_on :: string
  connection_types :: "kind list"

record tennis_web_data =
  doc_players :: "player_info list"
  doc_connections :: "(string, connections) dict"
  doc_player_details :: "(string, pdata) dict"
  doc_match_details :: "(string, match_info list) dict"
  doc_metadata :: metadata

section \<open>Head-to-head extractor\<close>

type_synonym h2h_state = "(int, int set) dict \<times> (int, match_info list) dict"

definition make_match_info :: "match_rec \<Rightarrow> int \<Rightarrow> match_info" where
  "make_match_info m l =
     \<lparr>opponent_id = l,
      tournament = tourney_name m,
      md_year = (if year m = 0 then None else Some (year m)),
      md_surface = (case surface m of None \<Rightarrow> [] | Some s \<Rightarrow> s),
      md_round = round_name m,
      md_score = score m,
      result = ''W''\<rparr>"

definition h2h_step :: "match_rec \<Rightarrow> h2h_state \<Rightarrow> h2h_state" where
  "h2h_step m st =
     (case st of (h, md) \<Rightarrow>
        (case (winner_id m, loser_id m) of
           (Some w, Some l) \<Rightarrow>
             let h1 = AList.update w (insert l (dict_get h w {})) h;
                 h2 = AList.update l (insert w (dict_get h1 l {})) h1;
                 match_info = make_match_info m l;
                 md1 = AList.update w (dict_get md w [] @ [match_info]) md;
                 match_info_loser = match_info\<lparr>opponent_id := w, result := ''L''\<rparr>;
                 md2 = AList.update l (dict_get md1 l [] @ [match_info_loser]) md1
             in (h2, md2)
         | _ \<Rightarrow> (h, md)))"

definition extract_head_to_head_connections ::
  "match_rec list \<Rightarrow> (int, pdata) dict \<Rightarrow> h2h_state" where
  "extract_head_to_head_connections matches_df players_data = fold h2h_step matches_df ([], [])"

section \<open>Attribute-group extractor\<close>

definition valid_players :: "(int, pdata) dict \<Rightarrow> (int, pdata) dict" where
  "valid_players players_data = filter (\<lambda>(player_id, data). name data \<noteq> None) players_data"

text \<open>The grouping keys: \<open>None\<close> where \<open>data.get(...)\<close> is falsy (absent, empty or zero).\<close>

definition country_key :: "pdata \<Rightarrow> string option" where
  "country_key data = (case country data of None \<Rightarrow> None
                        | Some c \<Rightarrow> if c = [] then None else Some c)"

definition hand_key :: "pdata \<Rightarrow> string option" where
  "hand_key data = (case hand data of None \<Rightarrow> None
                     | Some c \<Rightarrow> if c = [] then None else Some c)"

definition height_key :: "pdata \<Rightarrow> int option" where
  "height_key data = (case height data of None \<Rightarrow> None
                       | Some h \<Rightarrow> if h = 0 then None else Some (\<lfloor>h / 5\<rfloor> * 5))"

definition year_key :: "pdata \<Rightarrow> int option" where
  "year_key data = (case birth_year data of None \<Rightarrow> None
                     | Some y \<Rightarrow> if y = 0 then None else Some y)"

definition group_append :: "'k option \<Rightarrow> int \<Rightarrow> ('k, int list) dict \<Rightarrow> ('k, int list) dict" where
  \<comment> \<open>\<open>if data.get(attr): groups[key].append(player_id)\<close>\<close>
  "group_append key player_id groups =
     (case key of None \<Rightarrow> groups
      | Some k \<Rightarrow> AList.update k (dict_get groups k [] @ [player_id]) groups)"

type_synonym groups4 =
  "(string, int list) dict \<times> (string, int list) dict \<times> (int, int list) dict \<times> (int, int list) dict"

definition group_step :: "int \<times> pdata \<Rightarrow> groups4 \<Rightarrow> groups4" where
  "group_step p gs =
     (case p of (player_id, data) \<Rightarrow>
      (case gs of (country_groups, hand_groups, height_groups, year_groups) \<Rightarrow>
        (group_append (country_key data) player_id country_groups,
         group_append (hand_key data) player_id hand_groups,
         group_append (height_key data) player_id height_groups,
         group_append (year_key data) player_id year_groups)))"

type_synonym attr_dict = "(int, (kind, int list) dict) dict"

definition set_others :: "kind \<Rightarrow> int list \<Rightarrow> int \<Rightarrow> attr_dict \<Rightarrow> attr_dict" where
  \<comment> \<open>\<open>attribute_connections[player][kind] = [p for p in players if p != player]\<close>\<close>
  "set_others k players player ac =
     AList.update player
       (AList.update k (filter (\<lambda>p. p \<noteq> player) players) (dict_get ac player [])) ac"

definition connect_group :: "kind \<Rightarrow> int list \<Rightarrow> attr_dict \<Rightarrow> attr_dict" where
  "connect_group k players ac =
     (if length players > 1 then fold (set_others k players) players ac else ac)"

definition connect_groups :: "kind \<Rightarrow> ('k, int list) dict \<Rightarrow> attr_dict \<Rightarrow> attr_dict" where
  "connect_groups k groups ac = fold (\<lambda>(key, players). connect_group k players) groups ac"

definition extract_attribute_connections :: "(int, pdata) dict \<Rightarrow> attr_dict" where
  "extract_attribute_connections players_data =
     (case fold group_step (valid_players players_data) ([], [], [], []) of
        (country_groups, hand_groups, height_groups, year_groups) \<Rightarrow>
          connect_groups Same_birth_year year_groups
            (connect_groups Similar_height height_groups
              (connect_groups Same_hand hand_groups
                (connect_groups Same_country country_groups []))))"

section \<open>Tournament co-participation extractor\<close>

definition add_participant :: "string \<Rightarrow> int option \<Rightarrow> (string, int set) dict \<Rightarrow> (string, int set) dict" where
  \<comment> \<open>\<open>if pd.notna(id): tournament_players[tournament_key].add(int(id))\<close>\<close>
  "add_participant tournament_key pid tp =
     (case pid of None \<Rightarrow> tp
      | Some p \<Rightarrow> AList.update tournament_key (insert p (dict_get tp tournament_key {})) tp)"

definition tournament_step :: "match_rec \<Rightarrow> (string, int set) dict \<Rightarrow> (string, int set) dict" where
  "tournament_step m tp =
     (if tourney_name m \<noteq> [] \<and> year m \<noteq> 0 then
        let tournament_key = tourney_name m @ ''_'' @ str_int (year m)
        in add_participant tournament_key (loser_id m)
             (add_participant tournament_key (winner_id m) tp)
      else tp)"

type_synonym tour_dict = "(int, (kind, int set) dict) dict"

definition tc_add :: "int \<Rightarrow> int \<Rightarrow> tour_dict \<Rightarrow> tour_dict" where
  \<comment> \<open>\<open>tournament_connections[p]['same_tournament'].add(q)\<close>\<close>
  "tc_add p q tc =
     (let inner = dict_get tc p []
      in AList.update p
           (AList.update Same_tournament (insert q (dict_get inner Same_tournament {})) inner) tc)"

fun pair_loop :: "int list \<Rightarrow> tour_dict \<Rightarrow> tour_dict" where
  "pair_loop [] tc = tc"
| "pair_loop (player1 # rest) tc =
     pair_loop rest (fold (\<lambda>player2 tc'. tc_add player2 player1 (tc_add player1 player2 tc')) rest tc)"

definition gs_step :: "final_rec \<Rightarrow> (string, string set) dict \<Rightarrow> (string, string set) dict" where
  "gs_step final gs_finalists =
     (if f_tournament final \<noteq> [] then
        (if f_winner_name final \<noteq> [] \<and> f_loser_name final \<noteq> [] then
           let g1 = AList.update (f_tournament final)
                      (insert (f_winner_name final) (dict_get gs_finalists (f_tournament final) {}))
                      gs_finalists
           in AList.update (f_tournament final)
                (insert (f_loser_name final) (dict_get g1 (f_tournament final) {})) g1
         else gs_finalists)
      else gs_finalists)"

definition extract_tournament_connections ::
  "match_rec list \<Rightarrow> final_rec list \<Rightarrow> (int, (kind, int list) dict) dict" where
  "extract_tournament_connections matches_df gs_finals =
     (let tournament_players = fold tournament_step matches_df [];
          tournament_connections =
            fold (\<lambda>(tournament_key, players). pair_loop (sorted_list_of_set players))
              tournament_players [];
          gs_finalists = fold gs_step gs_finals []
          \<comment> \<open>the loop over \<open>gs_finalists\<close> has the body \<open>pass\<close>\<close>
      in map (\<lambda>(player_id, inner).
                (player_id, map (\<lambda>(connection_type, s). (connection_type, sorted_list_of_set s)) inner))
           tournament_connections)"

section \<open>Graph merger\<close>

definition all_player_ids ::
  "(int, int set) dict \<Rightarrow> attr_dict \<Rightarrow> (int, (kind, int list) dict) dict \<Rightarrow> int list" where
  "all_player_ids h2h_connections attribute_connections tournament_connections =
     remdups (map fst h2h_connections @ map fst attribute_connections
              @ map fst tournament_connections)"

definition connection_record ::
  "(int, int set) dict \<Rightarrow> attr_dict \<Rightarrow> (int, (kind, int list) dict) dict \<Rightarrow> int \<Rightarrow> connections" where
  "connection_record h2h_connections attribute_connections tournament_connections player_id =
     (let d = sorted_list_of_set (dict_get h2h_connections player_id {});
          c = dict_get (dict_get attribute_connections player_id []) Same_country [];
          h = dict_get (dict_get attribute_connections player_id []) Same_hand [];
          s = dict_get (dict_get attribute_connections player_id []) Similar_height [];
          b = dict_get (dict_get attribute_connections player_id []) Same_birth_year [];
          t = dict_get (dict_get tournament_connections player_id []) Same_tournament [];
          all_connections = set d \<union> set c \<union> set h \<union> set s \<union> set b \<union> set t
      in \<lparr>direct_opponents = d, same_country = c, same_hand = h, similar_height = s,
          same_birth_year = b, same_tournament = t,
          total_connections = card all_connections\<rparr>)"

definition build_connection_graph ::
  "(int, int set) dict \<Rightarrow> attr_dict \<Rightarrow> (int, (kind, int list) dict) dict
     \<Rightarrow> (int, connections) dict" where
  "build_connection_graph h2h_connections attribute_connections tournament_connections =
     map (\<lambda>player_id. (player_id,
            connection_record h2h_connections attribute_connections tournament_connections player_id))
       (all_player_ids h2h_connections attribute_connections tournament_connections)"

section \<open>Top-connectivity selector\<close>

definition make_player_info :: "int \<Rightarrow> pdata \<Rightarrow> nat \<Rightarrow> player_info" where
  "make_player_info player_id data n =
     \<lparr>info_id = player_id,
      info_name = (case name data of None \<Rightarrow> [] | Some s \<Rightarrow> s),
      info_country = (case country data of None \<Rightarrow> [] | Some s \<Rightarrow> s),
      info_hand = (case hand data of None \<Rightarrow> [] | Some s \<Rightarrow> s),
      info_height = height data,
      info_birth_year = birth_year data,
      info_titles = (case titles data of None \<Rightarrow> 0 | Some t \<Rightarrow> t),
      info_connections = n\<rparr>"

definition is_popular :: "(int, int set) dict \<Rightarrow> nat \<Rightarrow> int \<times> pdata \<Rightarrow> bool" where
  "is_popular h2h_connections min_connections p =
     (case p of (player_id, data) \<Rightarrow>
        name data \<noteq> None \<and>
        (case map_of h2h_connections player_id of None \<Rightarrow> False
         | Some s \<Rightarrow> card s \<ge> min_connections))"

text \<open>
  \<open>list.sort(key=..., reverse=True)\<close> is stable: equal keys keep their order. That is
  \<open>sort_key\<close> (a stable insertion sort) on the negated key.
\<close>

definition get_popular_players ::
  "(int, pdata) dict \<Rightarrow> (int, int set) dict \<Rightarrow> nat \<Rightarrow> player_info list" where
  "get_popular_players players_data h2h_connections min_connections =
     sort_key (\<lambda>x. - int (info_connections x))
       (map (\<lambda>(player_id, data).
               make_player_info player_id data (card (dict_get h2h_connections player_id {})))
          (filter (is_popular h2h_connections min_connections) players_data))"

section \<open>Main pipeline and serializer\<close>

definition all_kinds :: "kind list" where
  "all_kinds = [Direct_opponents, Same_country, Same_hand, Similar_height,
                Same_birth_year, Same_tournament]"

definition filter_by_ids :: "int list \<Rightarrow> (int \<Rightarrow> 'v option) \<Rightarrow> (string, 'v) dict" where
  \<comment> \<open>\<open>for player_id in ids: if <present>: out[str(player_id)] = <value>\<close>\<close>
  "filter_by_ids ids val =
     fold (\<lambda>player_id out. case val player_id of None \<Rightarrow> out
                            | Some v \<Rightarrow> AList.update (str_int player_id) v out) ids []"

definition main ::
  "match_rec list \<Rightarrow> (int, pdata) dict \<Rightarrow> final_rec list \<Rightarrow> int \<Rightarrow> string
     \<Rightarrow> tennis_web_data option" where
  \<comment> \<open>\<open>None\<close>: the early return, nothing is written. \<open>now_year\<close> and \<open>now_iso\<close> are what
      \<open>datetime.now()\<close> gives.\<close>
  "main matches_df players_data gs_finals now_year now_iso =
     (if matches_df = [] then None
      else
        let (h2h_connections, match_details) =
              extract_head_to_head_connections matches_df players_data;
            attribute_connections = extract_attribute_connections players_data;
            tournament_connections = extract_tournament_connections matches_df gs_finals;
            connection_graph =
              build_connection_graph h2h_connections attribute_connections tournament_connections;
            popular_players = get_popular_players players_data h2h_connections 8;
            top_players = take 800 popular_players;
            top_player_ids = remdups (map info_id top_players);
            filtered_connections = filter_by_ids top_player_ids (map_of connection_graph);
            filtered_player_details = filter_by_ids top_player_ids (map_of players_data);
            filtered_match_details =
              filter_by_ids top_player_ids (map_option (take 50) \<circ> map_of match_details)
        in Some \<lparr>doc_players = top_players,
                 doc_connections = filtered_connections,
                 doc_player_details = filtered_player_details,
                 doc_match_details = filtered_match_details,
                 doc_metadata =
                   \<lparr>total_players = length top_players,
                    total_matches = length matches_df,
                    data_range = ''1990-'' @ str_int now_year,
                    generated_on = now_iso,
                    connection_types = all_kinds\<rparr>\<rparr>)"

section \<open>Views of the results used in the statements\<close>

text \<open>
  What one match record gives a player: the opponents it adds and the match-detail entries
  it appends (none unless both ids are present).
\<close>

definition opponents_in :: "match_rec \<Rightarrow> int \<Rightarrow> int set" where
  "opponents_in m u =
     (case (winner_id m, loser_id m) of
        (Some w, Some l) \<Rightarrow> (if w = u then {l} else {}) \<union> (if l = u then {w} else {})
      | _ \<Rightarrow> {})"

definition entries_in :: "match_rec \<Rightarrow> int \<Rightarrow> match_info list" where
  "entries_in m u =
     (case (winner_id m, loser_id m) of
        (Some w, Some l) \<Rightarrow>
          (if w = u then [make_match_info m l] else [])
          @ (if l = u then [(make_match_info m l)\<lparr>opponent_id := w, result := ''L''\<rparr>] else [])
      | _ \<Rightarrow> [])"

text \<open>Reading a decimal string back, to show that \<open>str\<close> loses nothing.\<close>

definition int_of_str :: "string \<Rightarrow> int" where
  "int_of_str s = foldl (\<lambda>a c. 10 * a + (of_char c - 48)) 0 s"

text \<open>
  The \<open>same_tournament\<close> set of a player while the sets are still being built, and the
  three properties every step of the pair loop keeps.
\<close>

definition tn :: "tour_dict \<Rightarrow> int \<Rightarrow> int set" where
  "tn tc u = dict_get (dict_get tc u []) Same_tournament {}"

definition tc_ok :: "tour_dict \<Rightarrow> bool" where
  "tc_ok tc \<longleftrightarrow> (\<forall>u. finite (tn tc u) \<and> u \<notin> tn tc u) \<and> (\<forall>u v. v \<in> tn tc u \<longrightarrow> u \<in> tn tc v)"

definition tournament_neighbors :: "match_rec list \<Rightarrow> int \<Rightarrow> int set" where
  "tournament_neighbors ms u =
     tn (fold (\<lambda>(tournament_key, players). pair_loop (sorted_list_of_set players))
           (fold tournament_step ms []) []) u"

text \<open>
  Attribute groups: the entry of a player under a relation kind, one grouping on its own,
  the members of a group in input order, and the last group of size above one that holds
  a player (the one whose assignment survives).
\<close>

definition an_entry :: "attr_dict \<Rightarrow> kind \<Rightarrow> int \<Rightarrow> int list" where
  "an_entry ac k u = dict_get (dict_get ac u []) k []"

definition groups_of :: "(pdata \<Rightarrow> 'k option) \<Rightarrow> (int, pdata) dict \<Rightarrow> ('k, int list) dict \<Rightarrow> ('k, int list) dict" where
  "groups_of key vp g0 = fold (\<lambda>(player_id, data). group_append (key data) player_id) vp g0"

definition group_members :: "(pdata \<Rightarrow> 'k option) \<Rightarrow> (int, pdata) dict \<Rightarrow> 'k \<Rightarrow> int list" where
  "group_members key vp k = map fst (filter (\<lambda>(player_id, data). key data = Some k) vp)"

fun last_group :: "int \<Rightarrow> ('k, int list) dict \<Rightarrow> int list option" where
  "last_group u [] = None"
| "last_group u (g # rest) =
     (case last_group u rest of Some x \<Rightarrow> Some x
      | None \<Rightarrow> if u \<in> set (snd g) \<and> length (snd g) > 1 then Some (snd g) else None)"

text \<open>
  The grouping as the specification words it: a named player with the attribute is
  connected to every other member of its group when the group has more than one member,
  and to nobody otherwise.
\<close>

definition spec_attr_neighbors :: "(pdata \<Rightarrow> 'k option) \<Rightarrow> (int, pdata) dict \<Rightarrow> int \<Rightarrow> int list" where
  "spec_attr_neighbors key players_data u =
     (case map_of players_data u of None \<Rightarrow> []
      | Some data \<Rightarrow>
          if name data = None then []
          else (case key data of None \<Rightarrow> []
                | Some k \<Rightarrow>
                    let g = group_members key (valid_players players_data) k
                    in if length g > 1 then filter (\<lambda>p. p \<noteq> u) g else []))"

text \<open>The merged graph of a run, and a vertex's neighbor list under a relation kind.\<close>

fun kind_list :: "kind \<Rightarrow> connections \<Rightarrow> int list" where
  "kind_list Direct_opponents r = direct_opponents r"
| "kind_list Same_country r = same_country r"
| "kind_list Same_hand r = same_hand r"
| "kind_list Similar_height r = similar_height r"
| "kind_list Same_birth_year r = same_birth_year r"
| "kind_list Same_tournament r = same_tournament r"

definition merged_graph :: "match_rec list \<Rightarrow> (int, pdata) dict \<Rightarrow> final_rec list \<Rightarrow> (int, connections) dict" where
  "merged_graph ms pd gs =
     build_connection_graph (fst (extract_head_to_head_connections ms pd))
       (extract_attribute_connections pd) (extract_tournament_connections ms gs)"

definition neighbors :: "(int, connections) dict \<Rightarrow> kind \<Rightarrow> int \<Rightarrow> int list" where
  "neighbors g k v = (case map_of g v of None \<Rightarrow> [] | Some r \<Rightarrow> kind_list k r)"

definition has_name :: "(int, pdata) dict \<Rightarrow> int \<Rightarrow> bool" where
  "has_name pd u = (case map_of pd u of None \<Rightarrow> False | Some d \<Rightarrow> name d \<noteq> None)"

definition attr_key_eq :: "(pdata \<Rightarrow> 'k option) \<Rightarrow> (int, pdata) dict \<Rightarrow> int \<Rightarrow> int \<Rightarrow> bool" where
  "attr_key_eq key pd u v =
     (case (map_of pd u, map_of pd v) of
        (Some du, Some dv) \<Rightarrow> key du \<noteq> None \<and> key du = key dv
      | _ \<Rightarrow> False)"

text \<open>
  The selector's key, the eligible players in input order, and the ranked list of a run.
\<close>

definition direct_count :: "match_rec list \<Rightarrow> (int, pdata) dict \<Rightarrow> int \<Rightarrow> nat" where
  "direct_count ms pd player_id =
     card (dict_get (fst (extract_head_to_head_connections ms pd)) player_id {})"

definition eligible :: "match_rec list \<Rightarrow> (int, pdata) dict \<Rightarrow> player_info list" where
  "eligible ms pd =
     map (\<lambda>(player_id, data). make_player_info player_id data (direct_count ms pd player_id))
       (filter (\<lambda>(player_id, data). name data \<noteq> None \<and> direct_count ms pd player_id \<ge> 8) pd)"

definition ranked :: "match_rec list \<Rightarrow> (int, pdata) dict \<Rightarrow> player_info list" where
  "ranked ms pd = get_popular_players pd (fst (extract_head_to_head_connections ms pd)) 8"

section \<open>Example inputs\<close>

definition mk_match :: "int \<Rightarrow> int \<Rightarrow> string \<Rightarrow> int \<Rightarrow> match_rec" where
  "mk_match w l t y =
     \<lparr>winner_id = Some w, loser_id = Some l, tourney_name = t, year = y,
      surface = Some ''Hard'', round_name = ''R32'', score = ''6-4 6-4''\<rparr>"

definition mk_player :: "string \<Rightarrow> string \<Rightarrow> rat \<Rightarrow> pdata" where
  "mk_player n c h =
     \<lparr>name = Some n, country = Some c, hand = Some ''R'', height = Some h,
      titles = Some 0, birth_date = None, birth_year = Some 1981\<rparr>"

definition nameless :: pdata where
  "nameless = \<lparr>name = None, country = Some ''SUI'', hand = Some ''R'', height = Some 185,
      titles = None, birth_date = None, birth_year = Some 1981\<rparr>"

definition ex_matches :: "match_rec list" where
  "ex_matches = [mk_match 1 2 ''Wimbledon'' 2010, mk_match 2 1 ''Wimbledon'' 2011,
                 mk_match 1 3 ''US Open'' 2012, mk_match 3 4 ''US Open'' 2012]"

definition ex_players :: "(int, pdata) dict" where
  "ex_players = [(1, mk_player ''A'' ''SUI'' 185), (2, mk_player ''B'' ''SUI'' 188),
                 (3, mk_player ''C'' ''ESP'' 183), (4, nameless)]"

definition star_matches :: "match_rec list" where
  "star_matches = map (\<lambda>i. mk_match 1 i ''Wimbledon'' 2010) [2, 3, 4, 5, 6, 7, 8, 9]"

definition star_players :: "(int, pdata) dict" where
  "star_players = [(1, mk_player ''A'' ''SUI'' 185), (2, mk_player ''B'' ''SUI'' 188)]"

definition long_matches :: "match_rec list" where
  "long_matches = map (\<lambda>i. mk_match 1 (2 + i mod 8) ''Wimbledon'' (1990 + i)) [0..50]"

definition ex_record :: connections where
  \<comment> \<open>the record of player 1 in the merged graph of \<open>ex_matches\<close> and \<open>ex_players\<close>\<close>
  "ex_record = \<lparr>direct_opponents = [2, 3], same_country = [2], same_hand = [2, 3],
     similar_height = [2], same_birth_year = [2, 3], same_tournament = [2, 3, 4],
     total_connections = 3\<rparr>"

definition ex_final :: final_rec where
  "ex_final = \<lparr>f_tournament = ''Wimbledon'', f_winner_name = ''A'', f_loser_name = ''B''\<rparr>"

definition self_match :: "match_rec list" where
  "self_match = [mk_match 1 1 ''Wimbledon'' 2010]"



definition rank_matches :: "match_rec list" where
  "rank_matches = map (\<lambda>i. mk_match 1 i ''Wimbledon'' 2010) [11, 12, 13, 14, 15, 16, 17, 18]
     @ map (\<lambda>i. mk_match 2 i ''Wimbledon'' 2010) [11, 12, 13, 14, 15, 16, 17, 18]
     @ map (\<lambda>i. mk_match 3 i ''Wimbledon'' 2010) [11, 12, 13, 14, 15, 16, 17, 18, 19]"

definition rank_players :: "(int, pdata) dict" where
  "rank_players = [(1, mk_player ''A'' ''SUI'' 185), (2, mk_player ''B'' ''SUI'' 188),
                   (3, mk_player ''C'' ''ESP'' 183), (11, mk_player ''D'' ''ESP'' 183)]"

section \<open>Dictionaries\<close>

lemma dict_get_Nil [simp]: "dict_get [] k dflt = dflt"
  by (simp add: dict_get_def)

lemma dict_get_update [simp]:
  "dict_get (AList.update k v d) k' dflt = (if k' = k then v else dict_get d k' dflt)"
  by (simp add: dict_get_def update_conv')

lemma dict_get_map_of: "map_of d k = Some v \<Longrightarrow> dict_get d k dflt = v"
  by (simp add: dict_get_def)

lemma dict_get_absent: "map_of d k = None \<Longrightarrow> dict_get d k dflt = dflt"
  by (simp add: dict_get_def)

section \<open>Head-to-head extractor: what a run collects\<close>

lemma h2h_step_opp:
  "dict_get (fst (h2h_step m (h, md))) u {} = dict_get h u {} \<union> opponents_in m u"
  by (auto simp: h2h_step_def opponents_in_def Let_def split: option.splits)

lemma h2h_step_md:
  "dict_get (snd (h2h_step m (h, md))) u [] = dict_get md u [] @ entries_in m u"
  by (auto simp: h2h_step_def entries_in_def Let_def split: option.splits)

lemma h2h_step_dom:
  "dom (map_of h) = dom (map_of md) \<Longrightarrow>
   dom (map_of (fst (h2h_step m (h, md)))) = dom (map_of (snd (h2h_step m (h, md))))"
  by (auto simp: h2h_step_def Let_def update_conv' split: option.splits)

lemma h2h_fold_opp:
  "dict_get (fst (fold h2h_step ms st)) u {} = dict_get (fst st) u {} \<union> (\<Union>m\<in>set ms. opponents_in m u)"
proof (induction ms arbitrary: st)
  case Nil
  then show ?case by simp
next
  case (Cons m ms)
  obtain h md where st: "st = (h, md)" by (cases st)
  show ?case using Cons.IH [of "h2h_step m (h, md)"] h2h_step_opp [of m h md u]
    by (auto simp: st)
qed

lemma h2h_fold_md:
  "dict_get (snd (fold h2h_step ms st)) u [] = dict_get (snd st) u [] @ concat (map (\<lambda>m. entries_in m u) ms)"
proof (induction ms arbitrary: st)
  case Nil
  then show ?case by simp
next
  case (Cons m ms)
  obtain h md where st: "st = (h, md)" by (cases st)
  show ?case using Cons.IH [of "h2h_step m (h, md)"] h2h_step_md [of m h md u]
    by (simp add: st)
qed

lemma h2h_fold_dom:
  "dom (map_of (fst st)) = dom (map_of (snd st)) \<Longrightarrow>
   dom (map_of (fst (fold h2h_step ms st))) = dom (map_of (snd (fold h2h_step ms st)))"
proof (induction ms arbitrary: st)
  case Nil
  then show ?case by simp
next
  case (Cons m ms)
  obtain h md where st: "st = (h, md)" by (cases st)
  show ?case using Cons.IH [of "h2h_step m (h, md)"] h2h_step_dom [of h md m] Cons.prems
    by (simp add: st)
qed

lemma h2h_opponents:
  "dict_get (fst (extract_head_to_head_connections ms pd)) u {} = (\<Union>m\<in>set ms. opponents_in m u)"
  by (simp add: extract_head_to_head_connections_def h2h_fold_opp)

lemma h2h_details:
  "dict_get (snd (extract_head_to_head_connections ms pd)) u [] = concat (map (\<lambda>m. entries_in m u) ms)"
  by (simp add: extract_head_to_head_connections_def h2h_fold_md)

lemma h2h_same_keys:
  "dom (map_of (fst (extract_head_to_head_connections ms pd)))
     = dom (map_of (snd (extract_head_to_head_connections ms pd)))"
  unfolding extract_head_to_head_connections_def by (rule h2h_fold_dom) simp

lemma finite_opponents_in [simp]: "finite (opponents_in m u)"
  by (simp add: opponents_in_def split: option.splits)

lemma opponents_in_sym: "v \<in> opponents_in m u \<longleftrightarrow> u \<in> opponents_in m v"
  by (auto simp: opponents_in_def split: option.splits)

lemma opponents_in_self: "u \<in> opponents_in m u \<longleftrightarrow> winner_id m = Some u \<and> loser_id m = Some u"
  by (auto simp: opponents_in_def split: option.splits)

section \<open>Decimal strings are injective\<close>

lemma of_char_digit_char: "0 \<le> d \<Longrightarrow> d < 10 \<Longrightarrow> (of_char (digit_char d) :: int) = 48 + d"
  by (simp add: digit_char_def)

lemma int_of_str_snoc: "int_of_str (s @ [c]) = 10 * int_of_str s + (of_char c - 48)"
  by (simp add: int_of_str_def)

lemma int_of_str_str_pos: "0 \<le> n \<Longrightarrow> int_of_str (str_pos n) = n"
proof (induction n rule: str_pos.induct)
  case (1 n)
  show ?case
  proof (cases "n < 10")
    case True
    then show ?thesis using "1.prems"
      by (subst str_pos.simps) (simp add: int_of_str_def of_char_digit_char)
  next
    case False
    have "int_of_str (str_pos n)
            = 10 * int_of_str (str_pos (n div 10)) + (of_char (digit_char (n mod 10)) - 48)"
      using False by (subst str_pos.simps) (simp add: int_of_str_snoc)
    also have "\<dots> = 10 * (n div 10) + n mod 10"
      using 1 False by (simp add: of_char_digit_char)
    finally show ?thesis by simp
  qed
qed

lemma str_pos_inj: "0 \<le> a \<Longrightarrow> 0 \<le> b \<Longrightarrow> str_pos a = str_pos b \<Longrightarrow> a = b"
  by (metis int_of_str_str_pos)

lemma digit_char_not_minus: "0 \<le> d \<Longrightarrow> d < 10 \<Longrightarrow> digit_char d \<noteq> CHR ''-''"
proof
  assume d: "0 \<le> d" "d < 10" and e: "digit_char d = CHR ''-''"
  have "(of_char (digit_char d) :: int) = 48 + d" using d by (rule of_char_digit_char)
  with e d show False by simp
qed

lemma str_pos_not_Nil: "str_pos n \<noteq> []"
  by (subst str_pos.simps) simp

lemma hd_str_pos: "0 \<le> n \<Longrightarrow> hd (str_pos n) \<noteq> CHR ''-''"
proof (induction n rule: str_pos.induct)
  case (1 n)
  show ?case
  proof (cases "n < 10")
    case True
    then show ?thesis using "1.prems"
      by (subst str_pos.simps) (simp add: digit_char_not_minus)
  next
    case False
    then show ?thesis using 1 by (subst str_pos.simps) (simp add: str_pos_not_Nil)
  qed
qed

lemma str_int_inj: "str_int a = str_int b \<Longrightarrow> a = b"
proof -
  assume e: "str_int a = str_int b"
  have m: "\<And>n s. 0 \<le> n \<Longrightarrow> str_pos n \<noteq> CHR ''-'' # s"
    using hd_str_pos by (metis list.sel(1))
  show "a = b"
  proof (cases "a < 0")
    case True
    show ?thesis
    proof (cases "b < 0")
      case True
      with \<open>a < 0\<close> e have "str_pos (- a) = str_pos (- b)" by (simp add: str_int_def)
      with True \<open>a < 0\<close> have "- a = - b" by (intro str_pos_inj) simp_all
      then show ?thesis by simp
    next
      case False
      with \<open>a < 0\<close> e m [of b] show ?thesis by (simp add: str_int_def) metis
    qed
  next
    case False
    show ?thesis
    proof (cases "b < 0")
      case True
      with False e m [of a] show ?thesis by (simp add: str_int_def)
    next
      case nb: False
      with False e have "str_pos a = str_pos b" by (simp add: str_int_def)
      with False nb show ?thesis by (intro str_pos_inj) simp_all
    qed
  qed
qed

lemma filter_by_ids_fold:
  "map_of (fold (\<lambda>player_id out. case val player_id of None \<Rightarrow> out
                            | Some v \<Rightarrow> AList.update (str_int player_id) v out) ids d0) (str_int x)
   = (if x \<in> set ids \<and> val x \<noteq> None then val x else map_of d0 (str_int x))"
proof (induction ids arbitrary: d0)
  case Nil
  then show ?case by simp
next
  case (Cons i ids)
  show ?case
    by (auto simp: Cons.IH update_conv' dest: str_int_inj split: option.splits)
qed

lemma filter_by_ids_lookup:
  "map_of (filter_by_ids ids val) (str_int x) = (if x \<in> set ids then val x else None)"
  by (auto simp: filter_by_ids_def filter_by_ids_fold)

lemma filter_by_ids_fold_keys:
  "fst ` set (fold (\<lambda>player_id out. case val player_id of None \<Rightarrow> out
                            | Some v \<Rightarrow> AList.update (str_int player_id) v out) ids d0)
   = fst ` set d0 \<union> str_int ` {x \<in> set ids. val x \<noteq> None}"
proof (induction ids arbitrary: d0)
  case Nil
  then show ?case by simp
next
  case (Cons i ids)
  show ?case
    by (auto simp: Cons.IH dom_update split: option.splits)
qed

lemma filter_by_ids_keys:
  "fst ` set (filter_by_ids ids val) = str_int ` {x \<in> set ids. val x \<noteq> None}"
  by (simp add: filter_by_ids_def filter_by_ids_fold_keys)

section \<open>Tournament extractor: symmetric, irreflexive, finite\<close>

lemma tn_tc_add: "tn (tc_add p q tc) u = (if u = p then insert q (tn tc p) else tn tc u)"
  by (simp add: tn_def tc_add_def Let_def)

lemma tc_ok_Nil: "tc_ok []"
  by (simp add: tc_ok_def tn_def)

lemma tc_ok_add_pair: "p \<noteq> q \<Longrightarrow> tc_ok tc \<Longrightarrow> tc_ok (tc_add q p (tc_add p q tc))"
  unfolding tc_ok_def tn_tc_add by auto

lemma tc_ok_inner:
  "p \<notin> set rest \<Longrightarrow> tc_ok tc \<Longrightarrow>
   tc_ok (fold (\<lambda>player2 tc'. tc_add player2 p (tc_add p player2 tc')) rest tc)"
proof (induction rest arbitrary: tc)
  case Nil
  then show ?case by simp
next
  case (Cons q rest)
  from Cons.prems have "p \<noteq> q" and "p \<notin> set rest" by auto
  with Cons.prems(2) have "tc_ok (tc_add q p (tc_add p q tc))" by (simp add: tc_ok_add_pair)
  with Cons.IH \<open>p \<notin> set rest\<close> show ?case by simp
qed

lemma tc_ok_pair_loop: "distinct xs \<Longrightarrow> tc_ok tc \<Longrightarrow> tc_ok (pair_loop xs tc)"
proof (induction xs arbitrary: tc)
  case Nil
  then show ?case by simp
next
  case (Cons p rest)
  then show ?case by (simp add: tc_ok_inner)
qed

lemma tc_ok_tournaments:
  "tc_ok tc \<Longrightarrow>
   tc_ok (fold (\<lambda>(tournament_key, players). pair_loop (sorted_list_of_set players)) tp tc)"
proof (induction tp arbitrary: tc)
  case Nil
  then show ?case by simp
next
  case (Cons a tp)
  obtain k ps where a: "a = (k, ps)" by (cases a)
  have "tc_ok (pair_loop (sorted_list_of_set ps) tc)"
    using Cons.prems by (simp add: tc_ok_pair_loop)
  with Cons.IH show ?case by (simp add: a)
qed

lemma tournament_lists:
  "dict_get (dict_get (map (\<lambda>(player_id, inner).
        (player_id, map (\<lambda>(connection_type, s). (connection_type, sorted_list_of_set s)) inner)) tc) u [])
     Same_tournament [] = sorted_list_of_set (tn tc u)"
proof (cases "map_of tc u")
  case None
  then show ?thesis by (simp add: dict_get_def tn_def map_of_map)
next
  case (Some inner)
  then show ?thesis
    by (cases "map_of inner Same_tournament") (simp_all add: dict_get_def tn_def map_of_map)
qed

lemma same_tournament_entry:
  "dict_get (dict_get (extract_tournament_connections ms gs) u []) Same_tournament []
     = sorted_list_of_set (tournament_neighbors ms u)"
  by (simp add: extract_tournament_connections_def Let_def tournament_lists tournament_neighbors_def)

lemma tournament_neighbors_ok:
  "finite (tournament_neighbors ms u)" "u \<notin> tournament_neighbors ms u"
  "v \<in> tournament_neighbors ms u \<Longrightarrow> u \<in> tournament_neighbors ms v"
  using tc_ok_tournaments [OF tc_ok_Nil, of "fold tournament_step ms []"]
  unfolding tournament_neighbors_def tc_ok_def by blast+

section \<open>Attribute extractor: the groups and their complete subgraphs\<close>

lemma fold_group_step:
  "fold group_step vp (a, b, c, d) =
     (groups_of country_key vp a, groups_of hand_key vp b,
      groups_of height_key vp c, groups_of year_key vp d)"
proof (induction vp arbitrary: a b c d)
  case Nil
  then show ?case by (simp add: groups_of_def)
next
  case (Cons p vp)
  obtain i dt where p: "p = (i, dt)" by (cases p)
  have "fold group_step (p # vp) (a, b, c, d) =
        fold group_step vp (group_append (country_key dt) i a, group_append (hand_key dt) i b,
          group_append (height_key dt) i c, group_append (year_key dt) i d)"
    by (simp add: p group_step_def)
  also have "\<dots> = (groups_of country_key vp (group_append (country_key dt) i a),
      groups_of hand_key vp (group_append (hand_key dt) i b),
      groups_of height_key vp (group_append (height_key dt) i c),
      groups_of year_key vp (group_append (year_key dt) i d))"
    by (rule Cons.IH)
  also have "\<dots> = (groups_of country_key (p # vp) a, groups_of hand_key (p # vp) b,
      groups_of height_key (p # vp) c, groups_of year_key (p # vp) d)"
    by (simp add: groups_of_def p)
  finally show ?case .
qed

lemma groups_of_lookup:
  "map_of (groups_of key vp g0) k =
     (if group_members key vp k = [] then map_of g0 k
      else Some (dict_get g0 k [] @ group_members key vp k))"
proof (induction vp arbitrary: g0)
  case Nil
  then show ?case by (simp add: groups_of_def group_members_def)
next
  case (Cons p vp)
  obtain i dt where p: "p = (i, dt)" by (cases p)
  have step: "groups_of key ((i, dt) # vp) g0 = groups_of key vp (group_append (key dt) i g0)"
    by (simp add: groups_of_def)
  show ?case
  proof (cases "key dt")
    case None
    then show ?thesis
      by (simp add: step Cons.IH group_append_def group_members_def p)
  next
    case (Some k')
    then show ?thesis
      by (auto simp: step Cons.IH group_append_def group_members_def p update_conv' dict_get_def)
  qed
qed

lemma groups_of_distinct:
  "distinct (map fst g0) \<Longrightarrow> distinct (map fst (groups_of key vp g0))"
proof (induction vp arbitrary: g0)
  case Nil
  then show ?case by (simp add: groups_of_def)
next
  case (Cons p vp)
  obtain i dt where p: "p = (i, dt)" by (cases p)
  have step: "groups_of key ((i, dt) # vp) g0 = groups_of key vp (group_append (key dt) i g0)"
    by (simp add: groups_of_def)
  have "distinct (map fst (group_append (key dt) i g0))"
    using Cons.prems by (simp add: group_append_def distinct_update split: option.splits)
  then show ?case by (simp add: p step Cons.IH)
qed

lemma an_entry_set_others:
  "an_entry (set_others k players player ac) k' u =
     (if u = player \<and> k' = k then filter (\<lambda>p. p \<noteq> player) players else an_entry ac k' u)"
  by (simp add: an_entry_def set_others_def)

lemma an_entry_fold_set_others:
  "an_entry (fold (set_others k players) ps ac) k' u =
     (if u \<in> set ps \<and> k' = k then filter (\<lambda>p. p \<noteq> u) players else an_entry ac k' u)"
  by (induction ps arbitrary: ac) (auto simp: an_entry_set_others)

lemma an_entry_connect_group:
  "an_entry (connect_group k players ac) k' u =
     (if u \<in> set players \<and> k' = k \<and> length players > 1
      then filter (\<lambda>p. p \<noteq> u) players else an_entry ac k' u)"
  by (simp add: connect_group_def an_entry_fold_set_others)

lemma an_entry_connect_groups:
  "an_entry (connect_groups k gl ac) k' u =
     (if k' = k then (case last_group u gl of Some ps \<Rightarrow> filter (\<lambda>p. p \<noteq> u) ps
                                            | None \<Rightarrow> an_entry ac k' u)
      else an_entry ac k' u)"
proof (induction gl arbitrary: ac)
  case Nil
  then show ?case by (simp add: connect_groups_def)
next
  case (Cons g gl)
  obtain key ps where g: "g = (key, ps)" by (cases g)
  have step: "connect_groups k ((key, ps) # gl) ac = connect_groups k gl (connect_group k ps ac)"
    by (simp add: connect_groups_def)
  show ?case
    by (simp add: step Cons.IH an_entry_connect_group g split: option.splits)
qed

lemma last_group_none:
  "(\<forall>g \<in> set gl. u \<notin> set (snd g)) \<Longrightarrow> last_group u gl = None"
  by (induction gl) auto

lemma last_group_unique:
  "distinct (map fst gl) \<Longrightarrow> (\<forall>g \<in> set gl. u \<in> set (snd g) \<longrightarrow> fst g = k) \<Longrightarrow>
   last_group u gl = (case map_of gl k of None \<Rightarrow> None
                      | Some ps \<Rightarrow> if u \<in> set ps \<and> length ps > 1 then Some ps else None)"
proof (induction gl)
  case Nil
  then show ?case by simp
next
  case (Cons g gl)
  obtain key ps where g: "g = (key, ps)" by (cases g)
  show ?case
  proof (cases "key = k")
    case True
    with Cons.prems g have "k \<notin> fst ` set gl" by auto
    then have "\<forall>g \<in> set gl. u \<notin> set (snd g)" using Cons.prems(2)
      by (metis image_eqI list.set_intros(2))
    then have "last_group u gl = None" by (rule last_group_none)
    then show ?thesis by (simp add: g True)
  next
    case False
    with Cons.prems g have "u \<notin> set ps" by auto
    moreover have "last_group u gl = (case map_of gl k of None \<Rightarrow> None
                      | Some ps \<Rightarrow> if u \<in> set ps \<and> length ps > 1 then Some ps else None)"
      using Cons.prems by (intro Cons.IH) auto
    ultimately show ?thesis using False by (simp add: g split: option.splits)
  qed
qed

lemma in_group_members:
  "distinct (map fst vp) \<Longrightarrow>
   u \<in> set (group_members key vp k) \<longleftrightarrow> (\<exists>d. map_of vp u = Some d \<and> key d = Some k)"
  by (force simp: group_members_def)

lemma groups_of_entries:
  assumes "g \<in> set (groups_of key vp [])"
  shows "snd g = group_members key vp (fst g)"
proof -
  have "distinct (map fst (groups_of key vp []))" by (simp add: groups_of_distinct)
  with assms have "map_of (groups_of key vp []) (fst g) = Some (snd g)" by simp
  then show ?thesis by (simp add: groups_of_lookup split: if_splits)
qed

lemma last_group_groups_of:
  assumes d: "distinct (map fst vp)"
  shows "last_group u (groups_of key vp []) =
     (case map_of vp u of None \<Rightarrow> None
      | Some data \<Rightarrow> (case key data of None \<Rightarrow> None
          | Some k \<Rightarrow> if length (group_members key vp k) > 1
                      then Some (group_members key vp k) else None))"
proof -
  let ?gl = "groups_of key vp []"
  have dk: "distinct (map fst ?gl)" by (simp add: groups_of_distinct)
  have mem: "\<And>g. g \<in> set ?gl \<Longrightarrow> u \<in> set (snd g) \<Longrightarrow>
             \<exists>dt. map_of vp u = Some dt \<and> key dt = Some (fst g)"
    using groups_of_entries [of _ key vp] in_group_members [OF d, of u key] by metis
  show ?thesis
  proof (cases "map_of vp u")
    case None
    then have "\<forall>g \<in> set ?gl. u \<notin> set (snd g)" using mem by fastforce
    then show ?thesis using None by (simp add: last_group_none)
  next
    case (Some dt)
    show ?thesis
    proof (cases "key dt")
      case None
      then have "\<forall>g \<in> set ?gl. u \<notin> set (snd g)" using mem Some by fastforce
      then show ?thesis using None Some by (simp add: last_group_none)
    next
      case k: (Some k)
      have "\<forall>g \<in> set ?gl. u \<in> set (snd g) \<longrightarrow> fst g = k" using mem Some k by fastforce
      then have "last_group u ?gl = (case map_of ?gl k of None \<Rightarrow> None
                      | Some ps \<Rightarrow> if u \<in> set ps \<and> length ps > 1 then Some ps else None)"
        using dk by (rule last_group_unique [rotated])
      moreover have "u \<in> set (group_members key vp k)"
        using in_group_members [OF d, of u key k] Some k by simp
      ultimately show ?thesis using Some k
        by (auto simp: groups_of_lookup)
    qed
  qed
qed

lemma map_of_valid_players:
  "distinct (map fst pd) \<Longrightarrow>
   map_of (valid_players pd) u =
     (case map_of pd u of None \<Rightarrow> None | Some d \<Rightarrow> if name d = None then None else Some d)"
proof (induction pd)
  case Nil
  then show ?case by (simp add: valid_players_def)
next
  case (Cons p pd)
  obtain i dt where p: "p = (i, dt)" by (cases p)
  have ih: "map_of (valid_players pd) u =
     (case map_of pd u of None \<Rightarrow> None | Some d \<Rightarrow> if name d = None then None else Some d)"
    using Cons by simp
  have "u = i \<Longrightarrow> map_of pd u = None"
    using Cons.prems p by (simp add: map_of_eq_None_iff)
  then show ?case using ih
    by (auto simp: valid_players_def p)
qed

lemma distinct_valid_players: "distinct (map fst pd) \<Longrightarrow> distinct (map fst (valid_players pd))"
  by (simp add: valid_players_def distinct_map_filter)

lemma an_entry_Nil [simp]: "an_entry [] k u = []"
  by (simp add: an_entry_def)

lemma attr_entry_via_last_group:
  "an_entry (extract_attribute_connections pd) Same_country u =
     (case last_group u (groups_of country_key (valid_players pd) []) of
        Some ps \<Rightarrow> filter (\<lambda>p. p \<noteq> u) ps | None \<Rightarrow> [])"
  "an_entry (extract_attribute_connections pd) Same_hand u =
     (case last_group u (groups_of hand_key (valid_players pd) []) of
        Some ps \<Rightarrow> filter (\<lambda>p. p \<noteq> u) ps | None \<Rightarrow> [])"
  "an_entry (extract_attribute_connections pd) Similar_height u =
     (case last_group u (groups_of height_key (valid_players pd) []) of
        Some ps \<Rightarrow> filter (\<lambda>p. p \<noteq> u) ps | None \<Rightarrow> [])"
  "an_entry (extract_attribute_connections pd) Same_birth_year u =
     (case last_group u (groups_of year_key (valid_players pd) []) of
        Some ps \<Rightarrow> filter (\<lambda>p. p \<noteq> u) ps | None \<Rightarrow> [])"
  "an_entry (extract_attribute_connections pd) Direct_opponents u = []"
  "an_entry (extract_attribute_connections pd) Same_tournament u = []"
  by (simp_all add: extract_attribute_connections_def fold_group_step an_entry_connect_groups
        split: option.splits)

lemma spec_attr_from_last_group:
  assumes "distinct (map fst pd)"
  shows "(case last_group u (groups_of key (valid_players pd) []) of
        Some ps \<Rightarrow> filter (\<lambda>p. p \<noteq> u) ps | None \<Rightarrow> []) = spec_attr_neighbors key pd u"
  using assms
  by (simp add: last_group_groups_of distinct_valid_players map_of_valid_players
        spec_attr_neighbors_def Let_def split: option.splits)

lemma attr_entries:
  assumes "distinct (map fst pd)"
  shows "an_entry (extract_attribute_connections pd) Same_country u = spec_attr_neighbors country_key pd u"
    and "an_entry (extract_attribute_connections pd) Same_hand u = spec_attr_neighbors hand_key pd u"
    and "an_entry (extract_attribute_connections pd) Similar_height u = spec_attr_neighbors height_key pd u"
    and "an_entry (extract_attribute_connections pd) Same_birth_year u = spec_attr_neighbors year_key pd u"
  using assms by (simp_all add: attr_entry_via_last_group spec_attr_from_last_group)

section \<open>The merged graph\<close>

lemma map_of_graph:
  "map_of (build_connection_graph h a t) v =
     (if v \<in> set (all_player_ids h a t) then Some (connection_record h a t v) else None)"
  by (simp add: build_connection_graph_def map_of_map_restrict restrict_map_def)

lemma absent_key: "v \<notin> fst ` set d \<Longrightarrow> map_of d v = None"
  by (simp add: map_of_eq_None_iff)

lemma kind_list_record:
  "kind_list k (connection_record h a t v) =
     (case k of Direct_opponents \<Rightarrow> sorted_list_of_set (dict_get h v {})
      | Same_tournament \<Rightarrow> dict_get (dict_get t v []) Same_tournament []
      | _ \<Rightarrow> an_entry a k v)"
  by (cases k) (simp_all add: connection_record_def Let_def an_entry_def)

lemma neighbors_graph:
  "neighbors (build_connection_graph h a t) k v = kind_list k (connection_record h a t v)"
proof (cases "v \<in> set (all_player_ids h a t)")
  case True
  then show ?thesis by (simp add: neighbors_def map_of_graph)
next
  case False
  then have "map_of h v = None" "map_of a v = None" "map_of t v = None"
    by (simp_all add: all_player_ids_def absent_key)
  then have "kind_list k (connection_record h a t v) = []"
    by (cases k) (simp_all add: kind_list_record an_entry_def dict_get_def)
  with False show ?thesis by (simp add: neighbors_def map_of_graph)
qed

lemma finite_opponents: "finite (\<Union>m\<in>set ms. opponents_in m u)"
  by simp

lemma neighbors_direct:
  "set (neighbors (merged_graph ms pd gs) Direct_opponents v) = (\<Union>m\<in>set ms. opponents_in m v)"
  by (simp add: merged_graph_def neighbors_graph kind_list_record h2h_opponents)

lemma neighbors_tournament:
  "set (neighbors (merged_graph ms pd gs) Same_tournament v) = tournament_neighbors ms v"
  by (simp add: merged_graph_def neighbors_graph kind_list_record same_tournament_entry
        tournament_neighbors_ok(1))

lemma neighbors_attr:
  assumes "distinct (map fst pd)"
  shows "neighbors (merged_graph ms pd gs) Same_country v = spec_attr_neighbors country_key pd v"
    and "neighbors (merged_graph ms pd gs) Same_hand v = spec_attr_neighbors hand_key pd v"
    and "neighbors (merged_graph ms pd gs) Similar_height v = spec_attr_neighbors height_key pd v"
    and "neighbors (merged_graph ms pd gs) Same_birth_year v = spec_attr_neighbors year_key pd v"
  using assms by (simp_all add: merged_graph_def neighbors_graph kind_list_record attr_entries)

lemma two_members: "u \<in> set g \<Longrightarrow> v \<in> set g \<Longrightarrow> u \<noteq> v \<Longrightarrow> length g > 1"
  by (cases g; cases "tl g") auto

lemma spec_attr_mem:
  assumes d: "distinct (map fst pd)"
  shows "v \<in> set (spec_attr_neighbors key pd u) \<longleftrightarrow>
         u \<noteq> v \<and> has_name pd u \<and> has_name pd v \<and> attr_key_eq key pd u v"
proof -
  have dv: "distinct (map fst (valid_players pd))" using d by (rule distinct_valid_players)
  have mem: "\<And>w k. w \<in> set (group_members key (valid_players pd) k) \<longleftrightarrow>
       (\<exists>dw. map_of pd w = Some dw \<and> name dw \<noteq> None \<and> key dw = Some k)"
    by (auto simp: in_group_members [OF dv] map_of_valid_players [OF d] split: option.splits if_splits)
  show ?thesis
  proof (cases "map_of pd u")
    case None
    then show ?thesis by (simp add: spec_attr_neighbors_def has_name_def)
  next
    case (Some du)
    show ?thesis
    proof (cases "name du = None \<or> key du = None")
      case True
      then show ?thesis using Some
        by (auto simp: spec_attr_neighbors_def has_name_def attr_key_eq_def split: option.splits)
    next
      case False
      then obtain k where k: "key du = Some k" and n: "name du \<noteq> None" by auto
      let ?g = "group_members key (valid_players pd) k"
      have ug: "u \<in> set ?g" using mem [of u k] Some k n by simp
      have "v \<in> set (spec_attr_neighbors key pd u) \<longleftrightarrow> v \<in> set ?g \<and> v \<noteq> u \<and> length ?g > 1"
        using Some k n by (auto simp: spec_attr_neighbors_def Let_def)
      also have "\<dots> \<longleftrightarrow> v \<in> set ?g \<and> v \<noteq> u"
        using ug two_members [of u ?g v] by auto
      also have "\<dots> \<longleftrightarrow> u \<noteq> v \<and> has_name pd u \<and> has_name pd v \<and> attr_key_eq key pd u v"
        using Some k n mem [of v k]
        by (auto simp: has_name_def attr_key_eq_def split: option.splits)
      finally show ?thesis .
    qed
  qed
qed

lemma attr_key_eq_sym: "attr_key_eq key pd u v \<longleftrightarrow> attr_key_eq key pd v u"
  by (cases "map_of pd u"; cases "map_of pd v") (simp_all add: attr_key_eq_def, metis)

section \<open>Selector and serializer\<close>

lemma is_popular_iff:
  "0 < n \<Longrightarrow> is_popular h n (i, d) \<longleftrightarrow> name d \<noteq> None \<and> card (dict_get h i {}) \<ge> n"
  by (cases "map_of h i") (simp_all add: is_popular_def dict_get_def)

lemma is_popular_key: "is_popular h n (i, d) \<Longrightarrow> map_of h i \<noteq> None"
  by (cases "map_of h i") (simp_all add: is_popular_def)

lemma ranked_eq: "ranked ms pd = sort_key (\<lambda>x. - int (info_connections x)) (eligible ms pd)"
proof -
  have "filter (is_popular (fst (extract_head_to_head_connections ms pd)) 8) pd
        = filter (\<lambda>(player_id, data). name data \<noteq> None \<and> direct_count ms pd player_id \<ge> 8) pd"
    by (rule filter_cong) (auto simp: is_popular_iff direct_count_def)
  then show ?thesis
    by (simp add: ranked_def get_popular_players_def eligible_def direct_count_def)
qed

lemma main_Some:
  "main ms pd gs ny ni = Some doc \<Longrightarrow> ms \<noteq> []"
  by (auto simp: main_def split: if_splits)

lemma main_players:
  "main ms pd gs ny ni = Some doc \<Longrightarrow> doc_players doc = take 800 (ranked ms pd)"
  by (auto simp: main_def ranked_def Let_def split: if_splits prod.splits)

lemma main_connections:
  "main ms pd gs ny ni = Some doc \<Longrightarrow>
   doc_connections doc =
     filter_by_ids (remdups (map info_id (doc_players doc))) (map_of (merged_graph ms pd gs))"
  by (auto simp: main_def merged_graph_def Let_def split: if_splits prod.splits)

lemma main_match_details:
  "main ms pd gs ny ni = Some doc \<Longrightarrow>
   doc_match_details doc =
     filter_by_ids (remdups (map info_id (doc_players doc)))
       (map_option (take 50) \<circ> map_of (snd (extract_head_to_head_connections ms pd)))"
  by (auto simp: main_def Let_def split: if_splits prod.splits)

lemma main_player_details:
  "main ms pd gs ny ni = Some doc \<Longrightarrow>
   doc_player_details doc =
     filter_by_ids (remdups (map info_id (doc_players doc))) (map_of pd)"
  by (auto simp: main_def Let_def split: if_splits prod.splits)

lemma ranked_member:
  assumes "x \<in> set (ranked ms pd)"
  shows "\<exists>d. (info_id x, d) \<in> set pd \<and> name d \<noteq> None \<and> direct_count ms pd (info_id x) \<ge> 8
             \<and> x = make_player_info (info_id x) d (direct_count ms pd (info_id x))"
  using assms by (auto simp: ranked_eq eligible_def make_player_info_def)

lemma retained_in_h2h:
  assumes "x \<in> set (ranked ms pd)"
  shows "map_of (fst (extract_head_to_head_connections ms pd)) (info_id x) \<noteq> None"
proof -
  from ranked_member [OF assms] have "direct_count ms pd (info_id x) \<ge> 8" by blast
  then show ?thesis
    by (cases "map_of (fst (extract_head_to_head_connections ms pd)) (info_id x)")
       (simp_all add: direct_count_def dict_get_def)
qed

lemma retained_details:
  assumes "x \<in> set (ranked ms pd)"
  shows "map_of (snd (extract_head_to_head_connections ms pd)) (info_id x)
           = Some (concat (map (\<lambda>m. entries_in m (info_id x)) ms))"
proof -
  have "info_id x \<in> dom (map_of (snd (extract_head_to_head_connections ms pd)))"
    using retained_in_h2h [OF assms] h2h_same_keys [of ms pd] by auto
  then obtain l where l: "map_of (snd (extract_head_to_head_connections ms pd)) (info_id x) = Some l"
    by auto
  then have "dict_get (snd (extract_head_to_head_connections ms pd)) (info_id x) [] = l"
    by (rule dict_get_map_of)
  with l show ?thesis by (simp add: h2h_details)
qed

lemma retained_in_graph:
  assumes "x \<in> set (ranked ms pd)"
  shows "map_of (merged_graph ms pd gs) (info_id x)
           = Some (connection_record (fst (extract_head_to_head_connections ms pd))
                     (extract_attribute_connections pd) (extract_tournament_connections ms gs)
                     (info_id x))"
proof -
  have "info_id x \<in> fst ` set (fst (extract_head_to_head_connections ms pd))"
    using retained_in_h2h [OF assms] by (simp add: map_of_eq_None_iff)
  then show ?thesis
    by (simp add: merged_graph_def map_of_graph all_player_ids_def)
qed

lemma main_total: "ms \<noteq> [] \<Longrightarrow> \<exists>doc. main ms pd gs ny ni = Some doc"
  by (simp add: main_def Let_def split: prod.splits)

section \<open>The claims\<close>

text \<open>
  Throughout, \<open>players_data\<close> is a Python dict, so its keys are distinct: the hypothesis
  \<open>distinct (map fst pd)\<close>. Inputs are typed records as the loaders deliver them.
\<close>

subsection \<open>C1: the serialized connections after truncation\<close>

text \<open>
  Claim C1 says that after truncation every relation-kind neighbor list of a retained
  vertex holds only retained ids. The source selects which vertices are serialized and
  copies each record whole: with one named player who met eight opponents of a single
  match each, the only retained id is 1, and the serialized record of 1 still lists the
  ids 2 to 9 as direct opponents and 2 under \<open>same_country\<close>.
\<close>

theorem unfiltered_neighbors_counterexample:
  "(case main star_matches star_players [] 2025 ''2025-01-01'' of None \<Rightarrow> False
    | Some doc \<Rightarrow> map info_id (doc_players doc) = [1] \<and>
        (case map_of (doc_connections doc) ''1'' of None \<Rightarrow> False
         | Some r \<Rightarrow> direct_opponents r = [2, 3, 4, 5, 6, 7, 8, 9] \<and> same_country r = [2]))"
  by code_simp

text \<open>
  Claim C1, amended: the serialized connections map has one entry per retained vertex,
  keyed by the id as a string, and the entry is that vertex's record of the merged graph,
  unchanged (its neighbor lists are not filtered to the retained set). The match-detail
  list is the first 50 entries of the full list, and the direct-opponent count in the
  candidate's metadata is the number of its opponents in the full match data.
\<close>

theorem serialized_connections_are_unfiltered:
  assumes "main ms pd gs ny ni = Some doc"
  shows "fst ` set (doc_connections doc) = str_int ` info_id ` set (doc_players doc)
       \<and> (\<forall>x \<in> set (doc_players doc).
            map_of (doc_connections doc) (str_int (info_id x))
              = map_of (merged_graph ms pd gs) (info_id x)
            \<and> map_of (merged_graph ms pd gs) (info_id x) \<noteq> None
            \<and> map_of (doc_match_details doc) (str_int (info_id x))
                = Some (take 50 (concat (map (\<lambda>m. entries_in m (info_id x)) ms)))
            \<and> info_connections x = card (\<Union>m\<in>set ms. opponents_in m (info_id x)))"
proof -
  have r: "x \<in> set (ranked ms pd)" if "x \<in> set (doc_players doc)" for x
    using that assms by (auto simp: main_players dest: in_set_takeD)
  have g: "map_of (merged_graph ms pd gs) (info_id x) \<noteq> None" if "x \<in> set (doc_players doc)" for x
    using retained_in_graph [OF r [OF that], of gs] by simp
  have k: "fst ` set (doc_connections doc) = str_int ` info_id ` set (doc_players doc)"
    using g by (auto simp: main_connections [OF assms] filter_by_ids_keys)
  have c: "map_of (doc_connections doc) (str_int (info_id x))
              = map_of (merged_graph ms pd gs) (info_id x)" if "x \<in> set (doc_players doc)" for x
    using that by (simp add: main_connections [OF assms] filter_by_ids_lookup)
  have d: "map_of (doc_match_details doc) (str_int (info_id x))
                = Some (take 50 (concat (map (\<lambda>m. entries_in m (info_id x)) ms)))"
    if "x \<in> set (doc_players doc)" for x
    using that by (simp add: main_match_details [OF assms] filter_by_ids_lookup
          retained_details [OF r [OF that]])
  have n: "info_connections x = card (\<Union>m\<in>set ms. opponents_in m (info_id x))"
    if "x \<in> set (doc_players doc)" for x
  proof -
    from ranked_member [OF r [OF that]] obtain dt where
      "x = make_player_info (info_id x) dt (direct_count ms pd (info_id x))" by blast
    then have "info_connections x = direct_count ms pd (info_id x)"
      by (metis player_info.select_convs(8) make_player_info_def)
    then show ?thesis by (simp add: direct_count_def h2h_opponents)
  qed
  show ?thesis using k c g d n by simp
qed

theorem serialized_connections_are_unfiltered_witness:
  "\<exists>doc. main star_matches star_players [] 2025 ''2025-01-01'' = Some doc
     \<and> map info_id (doc_players doc) = [1]
     \<and> map_option direct_opponents (map_of (doc_connections doc) ''1'')
          = Some [2, 3, 4, 5, 6, 7, 8, 9]"
proof -
  have "star_matches \<noteq> []" by code_simp
  from main_total [OF this] obtain doc where
    d: "main star_matches star_players [] 2025 ''2025-01-01'' = Some doc" by blast
  have "map info_id (take 800 (ranked star_matches star_players)) = [1]" by code_simp
  then have p: "map info_id (doc_players doc) = [1]" by (simp add: main_players [OF d])
  then obtain x where x: "doc_players doc = [x]" "info_id x = 1" by auto
  have s: "str_int 1 = ''1''" by code_simp
  have e: "map_option direct_opponents (map_of (merged_graph star_matches star_players []) 1)
             = Some [2, 3, 4, 5, 6, 7, 8, 9]" by code_simp
  from serialized_connections_are_unfiltered [OF d]
  have "map_of (doc_connections doc) ''1'' = map_of (merged_graph star_matches star_players []) 1"
    by (simp add: x s)
  with d p e show ?thesis by auto
qed

subsection \<open>C2: total connections\<close>

text \<open>
  Claim C2: for every vertex of the merged graph, \<open>total_connections\<close> is the cardinality
  of the union of its six neighbor lists, so a neighbor reached under two relation kinds
  counts once. (In the example, player 1 has 3 distinct neighbors while the six lists
  have 11 entries together.)
\<close>

theorem total_connections_is_union_card:
  assumes "(v, r) \<in> set (build_connection_graph h a t)"
  shows "total_connections r =
           card (set (direct_opponents r) \<union> set (same_country r) \<union> set (same_hand r)
                 \<union> set (similar_height r) \<union> set (same_birth_year r) \<union> set (same_tournament r))"
proof -
  from assms have "r = connection_record h a t v"
    by (auto simp: build_connection_graph_def)
  then show ?thesis by (simp add: connection_record_def Let_def)
qed

theorem total_connections_is_union_card_witness:
  "(1, ex_record) \<in> set (merged_graph ex_matches ex_players [])
   \<and> total_connections ex_record =
           card (set (direct_opponents ex_record) \<union> set (same_country ex_record)
                 \<union> set (same_hand ex_record) \<union> set (similar_height ex_record)
                 \<union> set (same_birth_year ex_record) \<union> set (same_tournament ex_record))
   \<and> total_connections ex_record = 3
   \<and> length (direct_opponents ex_record) + length (same_country ex_record)
       + length (same_hand ex_record) + length (similar_height ex_record)
       + length (same_birth_year ex_record) + length (same_tournament ex_record) = 11"
proof -
  have h: "(1, ex_record) \<in> set (merged_graph ex_matches ex_players [])" by code_simp
  then have h': "(1, ex_record) \<in> set (build_connection_graph
       (fst (extract_head_to_head_connections ex_matches ex_players))
       (extract_attribute_connections ex_players) (extract_tournament_connections ex_matches []))"
    by (simp add: merged_graph_def)
  show ?thesis using h total_connections_is_union_card [OF h'] by (simp add: ex_record_def)
qed

subsection \<open>C3: the capped match-detail list\<close>

text \<open>
  Claim C3 says the serialized match-detail list is the most recent 50 entries of the
  full list. The source slices \<open>[:50]\<close>, which keeps the first 50: with 51 matches of
  player 1 in the years 1990 to 2040, in input order, the serialized list runs from 1990
  to 2039 and the most recent entry (2040) is the one dropped.
\<close>

theorem first_fifty_counterexample:
  "(case main long_matches star_players [] 2025 ''2025-01-01'' of None \<Rightarrow> False
    | Some doc \<Rightarrow>
        (case map_of (doc_match_details doc) ''1'' of None \<Rightarrow> False
         | Some l \<Rightarrow> length l = 50 \<and> md_year (hd l) = Some 1990 \<and> md_year (last l) = Some 2039))
   \<and> length (dict_get (snd (extract_head_to_head_connections long_matches star_players)) 1 []) = 51
   \<and> md_year (last (dict_get (snd (extract_head_to_head_connections long_matches star_players)) 1 []))
       = Some 2040"
  by code_simp

text \<open>
  Claim C3, amended: for every retained vertex, the full match-detail list holds the
  vertex's entries in input processing order (oldest first), and the serialized list is
  its first 50 entries (the oldest ones), so it has at most 50 entries.
\<close>

theorem match_details_keep_first_fifty:
  assumes "main ms pd gs ny ni = Some doc" and "x \<in> set (doc_players doc)"
  shows "\<exists>full. map_of (snd (extract_head_to_head_connections ms pd)) (info_id x) = Some full
           \<and> full = concat (map (\<lambda>m. entries_in m (info_id x)) ms)
           \<and> map_of (doc_match_details doc) (str_int (info_id x)) = Some (take 50 full)
           \<and> length (take 50 full) \<le> 50"
proof -
  from assms have r: "x \<in> set (ranked ms pd)" by (auto simp: main_players dest: in_set_takeD)
  have "map_of (doc_match_details doc) (str_int (info_id x))
          = Some (take 50 (concat (map (\<lambda>m. entries_in m (info_id x)) ms)))"
    using assms(2) by (simp add: main_match_details [OF assms(1)] filter_by_ids_lookup
          retained_details [OF r])
  then show ?thesis using retained_details [OF r] by simp
qed

theorem match_details_keep_first_fifty_witness:
  "\<exists>doc x. main star_matches star_players [] 2025 ''2025-01-01'' = Some doc
     \<and> x \<in> set (doc_players doc) \<and> info_id x = 1
     \<and> map_option (map opponent_id) (map_of (doc_match_details doc) ''1'')
          = Some [2, 3, 4, 5, 6, 7, 8, 9]"
proof -
  have "star_matches \<noteq> []" by code_simp
  from main_total [OF this] obtain doc where
    d: "main star_matches star_players [] 2025 ''2025-01-01'' = Some doc" by blast
  have "map info_id (take 800 (ranked star_matches star_players)) = [1]" by code_simp
  then have p: "map info_id (doc_players doc) = [1]" by (simp add: main_players [OF d])
  then obtain x where x: "doc_players doc = [x]" "info_id x = 1" by auto
  then have m: "x \<in> set (doc_players doc)" by simp
  have s: "str_int 1 = ''1''" by code_simp
  have e: "map opponent_id (take 50 (concat (map (\<lambda>m. entries_in m 1) star_matches)))
             = [2, 3, 4, 5, 6, 7, 8, 9]" by code_simp
  from match_details_keep_first_fifty [OF d m]
  have "map_of (doc_match_details doc) ''1''
          = Some (take 50 (concat (map (\<lambda>m. entries_in m 1) star_matches)))"
    by (simp add: x s)
  with d m x e show ?thesis by auto
qed

subsection \<open>C4: players without a name\<close>

text \<open>
  Claim C4 says a player id without a name is never a vertex of the merged graph and
  never inside a neighbor list. The head-to-head and tournament extractors read ids from
  the match records without looking at \<open>players_data\<close>: player 4, who has no name and
  played player 3, is a vertex, a direct opponent of 3 and a tournament neighbor of 1.
\<close>

theorem nameless_vertex_counterexample:
  "\<not> has_name ex_players 4
   \<and> map_of (merged_graph ex_matches ex_players []) 4 \<noteq> None
   \<and> 4 \<in> set (neighbors (merged_graph ex_matches ex_players []) Direct_opponents 3)
   \<and> 4 \<in> set (neighbors (merged_graph ex_matches ex_players []) Same_tournament 1)"
  by code_simp

text \<open>
  Claim C4, amended: a player id without a name takes no part in the four attribute
  relations (it is in no \<open>same_country\<close>, \<open>same_hand\<close>, \<open>similar_height\<close> or
  \<open>same_birth_year\<close> list, and its own four lists are empty), and it is never in the
  candidate list.
\<close>

theorem nameless_players_have_no_attribute_edges:
  assumes "distinct (map fst pd)"
  shows "(k \<in> {Same_country, Same_hand, Similar_height, Same_birth_year}
            \<and> u \<in> set (neighbors (merged_graph ms pd gs) k v) \<longrightarrow> has_name pd u \<and> has_name pd v)
       \<and> (main ms pd gs ny ni = Some doc \<and> x \<in> set (doc_players doc) \<longrightarrow> has_name pd (info_id x))"
proof
  show "k \<in> {Same_country, Same_hand, Similar_height, Same_birth_year}
            \<and> u \<in> set (neighbors (merged_graph ms pd gs) k v) \<longrightarrow> has_name pd u \<and> has_name pd v"
    by (auto simp: neighbors_attr [OF assms] spec_attr_mem [OF assms])
  show "main ms pd gs ny ni = Some doc \<and> x \<in> set (doc_players doc) \<longrightarrow> has_name pd (info_id x)"
  proof
    assume a: "main ms pd gs ny ni = Some doc \<and> x \<in> set (doc_players doc)"
    then have "x \<in> set (ranked ms pd)" by (auto simp: main_players dest: in_set_takeD)
    from ranked_member [OF this] obtain d where "(info_id x, d) \<in> set pd" "name d \<noteq> None"
      by blast
    with assms show "has_name pd (info_id x)" by (simp add: has_name_def)
  qed
qed

theorem nameless_players_have_no_attribute_edges_witness:
  "distinct (map fst ex_players)
   \<and> 2 \<in> set (neighbors (merged_graph ex_matches ex_players []) Same_country 1)
   \<and> has_name ex_players 2 \<and> has_name ex_players 1"
proof -
  have h: "distinct (map fst ex_players)" by code_simp
  have a: "2 \<in> set (neighbors (merged_graph ex_matches ex_players []) Same_country 1)" by code_simp
  show ?thesis using h a
      nameless_players_have_no_attribute_edges [OF h, of Same_country 2 ex_matches "[]" 1]
    by simp
qed

subsection \<open>C5: the candidate list\<close>

text \<open>
  Claim C5: the candidate list is the list of named players with at least 8 direct
  opponents, sorted by the direct-opponent count (the length of the vertex's
  \<open>direct_opponents\<close> list, not \<open>total_connections\<close>) in descending order, players with
  equal counts in the order of \<open>players_data\<close>, cut to the first 800.
\<close>

theorem candidates_ranked_by_direct_opponents:
  assumes "main ms pd gs ny ni = Some doc"
  shows "doc_players doc = take 800 (ranked ms pd)
       \<and> length (doc_players doc) \<le> 800
       \<and> set (ranked ms pd) = set (eligible ms pd)
       \<and> sorted_wrt (\<lambda>a b. info_connections a \<ge> info_connections b) (ranked ms pd)
       \<and> (\<forall>n. filter (\<lambda>x. info_connections x = n) (ranked ms pd)
               = filter (\<lambda>x. info_connections x = n) (eligible ms pd))
       \<and> (\<forall>x \<in> set (eligible ms pd).
             info_connections x
               = length (neighbors (merged_graph ms pd gs) Direct_opponents (info_id x)))"
proof -
  have p: "doc_players doc = take 800 (ranked ms pd)" using assms by (rule main_players)
  have s: "sorted_wrt (\<lambda>a b. info_connections a \<ge> info_connections b) (ranked ms pd)"
    using sorted_sort_key [of "\<lambda>x. - int (info_connections x)" "eligible ms pd"]
    by (simp add: ranked_eq sorted_map)
  have st: "filter (\<lambda>x. info_connections x = n) (ranked ms pd)
               = filter (\<lambda>x. info_connections x = n) (eligible ms pd)" for n
    using sort_key_stable [of "\<lambda>x. - int (info_connections x)" "- int n" "eligible ms pd"]
    by (simp add: ranked_eq)
  have c: "info_connections x
               = length (neighbors (merged_graph ms pd gs) Direct_opponents (info_id x))"
    if "x \<in> set (eligible ms pd)" for x
    using that
    by (auto simp: eligible_def make_player_info_def direct_count_def merged_graph_def
          neighbors_graph kind_list_record)
  show ?thesis using p s st c by (simp add: ranked_eq)
qed

theorem candidates_ranked_by_direct_opponents_witness:
  "\<exists>doc. main rank_matches rank_players [] 2025 ''2025-01-01'' = Some doc
     \<and> map info_id (doc_players doc) = [3, 1, 2]
     \<and> map info_connections (doc_players doc) = [9, 8, 8]"
proof -
  have "rank_matches \<noteq> []" by code_simp
  from main_total [OF this] obtain doc where
    d: "main rank_matches rank_players [] 2025 ''2025-01-01'' = Some doc" by blast
  have r: "map info_id (ranked rank_matches rank_players) = [3, 1, 2]"
    and c: "map info_connections (ranked rank_matches rank_players) = [9, 8, 8]" by code_simp+
  have "doc_players doc = take 800 (ranked rank_matches rank_players)"
    using candidates_ranked_by_direct_opponents [OF d] by blast
  moreover have "length (ranked rank_matches rank_players) = 3"
    using arg_cong [OF r, of length] by simp
  ultimately have "doc_players doc = ranked rank_matches rank_players" by simp
  with d r c show ?thesis by simp
qed

subsection \<open>C6: symmetry\<close>

text \<open>
  Claim C6: in the merged graph every relation is symmetric: under each of the six
  relation kinds, u is in v's neighbor list exactly when v is in u's.
\<close>

theorem relation_edges_symmetric:
  assumes "distinct (map fst pd)"
  shows "u \<in> set (neighbors (merged_graph ms pd gs) k v) \<longleftrightarrow>
         v \<in> set (neighbors (merged_graph ms pd gs) k u)"
proof (cases k)
  case Direct_opponents
  then show ?thesis using opponents_in_sym by (simp add: neighbors_direct)
next
  case Same_tournament
  then show ?thesis using tournament_neighbors_ok(3) by (auto simp: neighbors_tournament)
next
  case Same_country
  then show ?thesis using attr_key_eq_sym [of country_key pd u v]
    by (auto simp: neighbors_attr [OF assms] spec_attr_mem [OF assms])
next
  case Same_hand
  then show ?thesis using attr_key_eq_sym [of hand_key pd u v]
    by (auto simp: neighbors_attr [OF assms] spec_attr_mem [OF assms])
next
  case Similar_height
  then show ?thesis using attr_key_eq_sym [of height_key pd u v]
    by (auto simp: neighbors_attr [OF assms] spec_attr_mem [OF assms])
next
  case Same_birth_year
  then show ?thesis using attr_key_eq_sym [of year_key pd u v]
    by (auto simp: neighbors_attr [OF assms] spec_attr_mem [OF assms])
qed

theorem relation_edges_symmetric_witness:
  "distinct (map fst ex_players)
   \<and> 2 \<in> set (neighbors (merged_graph ex_matches ex_players []) Same_country 1)
   \<and> 1 \<in> set (neighbors (merged_graph ex_matches ex_players []) Same_country 2)"
proof -
  have h: "distinct (map fst ex_players)" by code_simp
  have a: "2 \<in> set (neighbors (merged_graph ex_matches ex_players []) Same_country 1)" by code_simp
  show ?thesis using h a relation_edges_symmetric [OF h, of 2 ex_matches "[]" Same_country 1] by simp
qed

subsection \<open>C7: self-loops\<close>

text \<open>
  Claim C7 says no vertex is its own neighbor under any relation kind, also when a match
  record has the same id as winner and loser. The head-to-head extractor adds both
  directions of such a record without comparing the ids, so the player becomes its own
  direct opponent.
\<close>

theorem self_match_counterexample:
  "1 \<in> set (neighbors (merged_graph self_match [] []) Direct_opponents 1)"
  by code_simp

text \<open>
  Claim C7, amended: no vertex of the merged graph is in its own neighbor list under
  \<open>same_country\<close>, \<open>same_hand\<close>, \<open>similar_height\<close>, \<open>same_birth_year\<close> or
  \<open>same_tournament\<close>; under \<open>direct_opponents\<close> it is exactly when some match record has
  that id as both winner and loser.
\<close>

theorem no_self_loops_except_self_match:
  assumes "distinct (map fst pd)"
  shows "(k \<noteq> Direct_opponents \<longrightarrow> v \<notin> set (neighbors (merged_graph ms pd gs) k v))
       \<and> (v \<in> set (neighbors (merged_graph ms pd gs) Direct_opponents v)
            \<longleftrightarrow> (\<exists>m \<in> set ms. winner_id m = Some v \<and> loser_id m = Some v))"
proof
  show "k \<noteq> Direct_opponents \<longrightarrow> v \<notin> set (neighbors (merged_graph ms pd gs) k v)"
    using tournament_neighbors_ok(2) [of v ms]
    by (cases k) (simp_all add: neighbors_attr [OF assms] spec_attr_mem [OF assms] neighbors_tournament)
  show "v \<in> set (neighbors (merged_graph ms pd gs) Direct_opponents v)
            \<longleftrightarrow> (\<exists>m \<in> set ms. winner_id m = Some v \<and> loser_id m = Some v)"
    by (simp add: neighbors_direct opponents_in_self)
qed

theorem no_self_loops_except_self_match_witness:
  "distinct (map fst ex_players)
   \<and> 1 \<notin> set (neighbors (merged_graph ex_matches ex_players []) Same_country 1)
   \<and> 1 \<notin> set (neighbors (merged_graph ex_matches ex_players []) Direct_opponents 1)"
proof -
  have h: "distinct (map fst ex_players)" by code_simp
  have n: "\<not> (\<exists>m \<in> set ex_matches. winner_id m = Some 1 \<and> loser_id m = Some 1)" by code_simp
  show ?thesis
    using h n no_self_loops_except_self_match [OF h, of Same_country 1 ex_matches "[]"] by simp
qed

subsection \<open>C8: the Grand Slam final records\<close>

text \<open>
  Claim C8: the Grand Slam final records have no effect on any output. Two runs on the
  same matches and players (and the same clock) with different final records give the
  same tournament connections, the same merged graph and the same document; the candidate
  list is computed without them.
\<close>

theorem grand_slam_finals_have_no_effect:
  "extract_tournament_connections ms gs1 = extract_tournament_connections ms gs2
   \<and> merged_graph ms pd gs1 = merged_graph ms pd gs2
   \<and> main ms pd gs1 ny ni = main ms pd gs2 ny ni"
  by (simp add: extract_tournament_connections_def merged_graph_def main_def Let_def)

theorem grand_slam_finals_have_no_effect_witness:
  "main ex_matches ex_players [] 2025 ''2025-01-01''
     = main ex_matches ex_players [ex_final] 2025 ''2025-01-01''"
  using grand_slam_finals_have_no_effect
          [of ex_matches "[]" "[ex_final]" ex_players 2025 "''2025-01-01''"]
  by simp

subsection \<open>C9: attribute groups\<close>



subsection \<open>C10: abort and skipped records\<close>




end
